theory Spec2Isabelle
  imports Complex_Main
begin

section \<open>Values and strings of the dashboard helpers\<close>

text \<open>
  The helpers of \<^verbatim>\<open>dashboard.py\<close> take Python numbers that may also be \<^verbatim>\<open>None\<close> or
  a not-a-number. A finite number, an integer or a double, is the rational it denotes.
  The trend badge and the compact format round the result of each arithmetic operation
  to the nearest double, as the code does (\<open>round_double\<close> below); the axis ticks and the
  means of series are computed exactly. The infinities are left out.
\<close>

datatype pyval = PNone | PNaN | PNum (num: rat)

text \<open>\<^verbatim>\<open>pd.isna\<close> on a scalar: true of \<^verbatim>\<open>None\<close> and of not-a-number.\<close>

definition isna :: "pyval \<Rightarrow> bool" where
  \<open>isna v = (case v of PNone \<Rightarrow> True | PNaN \<Rightarrow> True | PNum _ \<Rightarrow> False)\<close>

text \<open>
  A Python string is a sequence of code points. The three code points beyond ASCII that
  the helpers emit are written as their UTF-8 bytes, the form in which the page is sent.
\<close>

definition em_dash :: string where
  \<open>em_dash = [CHR 0xE2, CHR 0x80, CHR 0x94]\<close>

definition up_arrow :: string where
  \<open>up_arrow = [CHR 0xE2, CHR 0x86, CHR 0x91]\<close>

definition down_arrow :: string where
  \<open>down_arrow = [CHR 0xE2, CHR 0x86, CHR 0x93]\<close>

subsection \<open>The format specification \<^verbatim>\<open>.Nf\<close>\<close>

text \<open>
  \<^verbatim>\<open>f"{x:.Nf}"\<close> prints the value rounded to N decimals, ties to the even neighbour, with a
  minus sign whenever the value is negative (also when it rounds to zero) and without a
  decimal point when N is 0.
\<close>

definition round_half_even :: "rat \<Rightarrow> int" where
  \<open>round_half_even x =
     (let f = \<lfloor>x\<rfloor>; d = x - of_int f
      in if d < 1 / 2 then f
         else if 1 / 2 < d then f + 1
         else if even f then f else f + 1)\<close>

definition digit_char :: "nat \<Rightarrow> char" where
  \<open>digit_char d = ''0123456789'' ! d\<close>

fun str_nat :: "nat \<Rightarrow> string" where
  \<open>str_nat n = (if n < 10 then [digit_char n] else str_nat (n div 10) @ [digit_char (n mod 10)])\<close>

declare str_nat.simps [simp del]

definition zero_pad :: "nat \<Rightarrow> string \<Rightarrow> string" where
  \<open>zero_pad w s = replicate (w - length s) (CHR ''0'') @ s\<close>

definition format_fixed :: "nat \<Rightarrow> rat \<Rightarrow> string" where
  \<open>format_fixed d x =
     (let n = nat (round_half_even (\<bar>x\<bar> * 10 ^ d));
          ip = n div 10 ^ d;
          fp = n mod 10 ^ d
      in (if x < 0 then ''-'' else '''') @ str_nat ip
         @ (if d = 0 then '''' else ''.'' @ zero_pad d (str_nat fp)))\<close>

text \<open>
  Reading a string of decimal digits back as a number; it is used only to say what the
  digits printed by \<open>str_nat\<close> denote.
\<close>

definition digit_value :: "char \<Rightarrow> nat" where
  \<open>digit_value c = of_char c - 48\<close>

definition read_nat :: "string \<Rightarrow> nat" where
  \<open>read_nat s = foldl (\<lambda>a c. 10 * a + digit_value c) 0 s\<close>

subsection \<open>Double precision\<close>

text \<open>
  The exponent of a positive number: \<open>e\<close> with \<open>2\<^sup>e \<le> x < 2\<^sup>e\<^sup>+\<^sup>1\<close>, found by halving or
  doubling.
\<close>

function floor_log2 :: "rat \<Rightarrow> int" where
  \<open>floor_log2 x =
     (if x \<le> 0 then 0
      else if 2 \<le> x then floor_log2 (x / 2) + 1
      else if x < 1 then floor_log2 (x * 2) - 1
      else 0)\<close>
  by pat_completeness auto
termination
proof (relation \<open>measure (\<lambda>x. if 1 \<le> x then nat \<lfloor>x\<rfloor> else 2 + nat \<lceil>1 / x\<rceil>)\<close>)
  show \<open>wf (measure (\<lambda>x::rat. if 1 \<le> x then nat \<lfloor>x\<rfloor> else 2 + nat \<lceil>1 / x\<rceil>))\<close>
    by simp
next
  fix x :: rat
  assume \<open>\<not> x \<le> 0\<close> and big: \<open>2 \<le> x\<close>
  have \<open>\<lfloor>x / 2\<rfloor> < \<lfloor>x\<rfloor>\<close>
  proof -
    have \<open>x / 2 \<le> x - 1\<close> using big by simp
    then have \<open>\<lfloor>x / 2\<rfloor> \<le> \<lfloor>x - 1\<rfloor>\<close> by (rule floor_mono)
    then show ?thesis by simp
  qed
  moreover have \<open>1 \<le> x / 2\<close> using big by simp
  moreover have \<open>0 < \<lfloor>x\<rfloor>\<close> using big by simp
  ultimately show \<open>(x / 2, x) \<in> measure (\<lambda>x. if 1 \<le> x then nat \<lfloor>x\<rfloor> else 2 + nat \<lceil>1 / x\<rceil>)\<close>
    using big by simp
next
  fix x :: rat
  assume pos: \<open>\<not> x \<le> 0\<close> and \<open>\<not> 2 \<le> x\<close> and small: \<open>x < 1\<close>
  show \<open>(x * 2, x) \<in> measure (\<lambda>x. if 1 \<le> x then nat \<lfloor>x\<rfloor> else 2 + nat \<lceil>1 / x\<rceil>)\<close>
  proof (cases \<open>1 \<le> x * 2\<close>)
    case True
    have \<open>x * 2 < 2\<close> using small by simp
    then have \<open>\<lfloor>x * 2\<rfloor> < 2\<close> by (simp add: floor_less_iff)
    then have \<open>nat \<lfloor>x * 2\<rfloor> < 2 + nat \<lceil>1 / x\<rceil>\<close> by linarith
    then show ?thesis using True small by simp
  next
    case False
    have xpos: \<open>0 < x\<close> using pos by simp
    have \<open>1 / (x * 2) + 1 \<le> 1 / x\<close>
    proof -
      have \<open>2 \<le> 1 / x\<close> using False xpos by (simp add: field_simps)
      then show ?thesis by (simp add: field_simps)
    qed
    then have \<open>of_int \<lceil>1 / (x * 2)\<rceil> < 1 / x + 0\<close>
      using ceiling_correct [of \<open>1 / (x * 2)\<close>] by linarith
    also have \<open>1 / x + 0 \<le> of_int \<lceil>1 / x\<rceil>\<close> by simp
    finally have \<open>\<lceil>1 / (x * 2)\<rceil> < \<lceil>1 / x\<rceil>\<close> by simp
    moreover have \<open>0 < \<lceil>1 / (x * 2)\<rceil>\<close> using xpos by simp
    ultimately show ?thesis using False small by simp
  qed
qed

declare floor_log2.simps [simp del]

text \<open>
  The spacing of the doubles around \<open>x\<close>: \<open>2\<^sup>e\<^sup>-\<^sup>5\<^sup>2\<close> for \<open>2\<^sup>e \<le> \<bar>x\<bar> < 2\<^sup>e\<^sup>+\<^sup>1\<close>, and that of the
  subnormal numbers, \<open>2\<^sup>-\<^sup>1\<^sup>0\<^sup>7\<^sup>4\<close>, below \<open>2\<^sup>-\<^sup>1\<^sup>0\<^sup>2\<^sup>2\<close>.
\<close>

definition double_ulp :: "rat \<Rightarrow> rat" where
  \<open>double_ulp x = 2 powi (max (floor_log2 \<bar>x\<bar>) (- 1022) - 52)\<close>

text \<open>
  Rounding to the nearest double, ties to the even significand: what \<^verbatim>\<open>-\<close>, \<^verbatim>\<open>/\<close> and \<^verbatim>\<open>*\<close>
  on floats, and \<^verbatim>\<open>/\<close> on integers, do to their exact result. Overflow to infinity is not
  modelled.
\<close>

definition round_double :: "rat \<Rightarrow> rat" where
  \<open>round_double x = sgn x * of_int (round_half_even (\<bar>x\<bar> / double_ulp x)) * double_ulp x\<close>

section \<open>Formatting helpers\<close>

text \<open>
  \<^verbatim>\<open>fmt_compact\<close>. The mantissas \<^verbatim>\<open>v / 1_000_000\<close> and \<^verbatim>\<open>v / 1_000\<close> are doubles: the
  quotient rounded. \<^verbatim>\<open>m % 1 != 0\<close> on a float: the remainder takes the sign of the
  divisor, so it is the fractional part \<open>m - \<lfloor>m\<rfloor>\<close>.
\<close>

definition fmt_compact :: "rat \<Rightarrow> string" where
  \<open>fmt_compact v =
     (if \<bar>v\<bar> \<ge> 1000000 then
        (let m = round_double (v / 1000000)
         in if frac m \<noteq> 0 then ''$'' @ format_fixed 1 m @ ''M''
            else ''$'' @ format_fixed 0 m @ ''M'')
      else if \<bar>v\<bar> \<ge> 1000 then
        (let k = round_double (v / 1000) in ''$'' @ format_fixed 0 k @ ''K'')
      else ''$'' @ format_fixed 0 v)\<close>

definition no_data_badge :: string where
  \<open>no_data_badge = ''<span style="color:#6b7280">'' @ em_dash @ ''</span>''\<close>

text \<open>
  \<^verbatim>\<open>pct = (current - previous) / abs(previous) * 100\<close>: three operations, each rounded.
  (The difference of two integers is exact in Python; below \<open>2\<^sup>5\<^sup>3\<close> rounding leaves it.)
\<close>

definition trend_pct :: "rat \<Rightarrow> rat \<Rightarrow> rat" where
  \<open>trend_pct current previous =
     round_double (round_double (round_double (current - previous) / \<bar>previous\<bar>) * 100)\<close>

definition trend_badge :: "pyval \<Rightarrow> pyval \<Rightarrow> bool \<Rightarrow> string" where
  \<open>trend_badge current previous lower_is_better =
     (if previous = PNone \<or> isna previous \<or> previous = PNum 0 then no_data_badge
      else if current = PNone \<or> isna current then no_data_badge
      else
        (let pct = trend_pct (num current) (num previous);
             positive_outcome = (if lower_is_better then pct < 0 else pct > 0);
             color = (if positive_outcome then ''#16a34a'' else ''#dc2626'');
             arrow = (if pct > 0 then up_arrow else down_arrow)
         in ''<span style="color:'' @ color @ ''">'' @ arrow @ '' ''
            @ format_fixed 2 \<bar>pct\<bar> @ ''%</span>''))\<close>


subsection \<open>Axis ticks\<close>





section \<open>The dashboard script\<close>

subsection \<open>Series of numbers with missing entries\<close>

text \<open>
  A pandas series of floats is a list whose missing entries (not-a-number) are \<open>None\<close>.
  \<^verbatim>\<open>dropna()\<close> removes them, \<^verbatim>\<open>.empty\<close> asks for the empty list, and \<^verbatim>\<open>mean()\<close> skips
  them and is itself missing when nothing is left.
\<close>

type_synonym series = "rat option list"

definition dropna :: "'a option list \<Rightarrow> 'a option list" where
  \<open>dropna s = filter (\<lambda>x. x \<noteq> None) s\<close>

text \<open>The positions of a series that hold a value; used to state what \<open>mean\<close> averages.\<close>

definition defined_positions :: "'a option list \<Rightarrow> nat set" where
  \<open>defined_positions s = {i. i < length s \<and> s ! i \<noteq> None}\<close>

definition series_mean :: "series \<Rightarrow> rat option" where
  \<open>series_mean s =
     (let xs = map the (dropna s)
      in if xs = [] then None else Some (sum_list xs / of_nat (length xs)))\<close>

subsection \<open>Year selector\<close>

text \<open>
  The columns of \<^verbatim>\<open>sales_df\<close> that the selector reads. The year is derived from the
  purchase timestamp and is missing where the timestamp is; \<^verbatim>\<open>astype(int)\<close> leaves a whole
  year as it is.
\<close>

record sales_row =
  order_status :: string
  year :: "int option"

definition delivered :: "sales_row list \<Rightarrow> sales_row list" where
  \<open>delivered sales_df = filter (\<lambda>r. order_status r = ''delivered'') sales_df\<close>

text \<open>\<^verbatim>\<open>sorted(xs, reverse=True)\<close> on integers.\<close>

definition sorted_reverse :: "int list \<Rightarrow> int list" where
  \<open>sorted_reverse xs = rev (sort xs)\<close>

definition available_years :: "sales_row list \<Rightarrow> int list" where
  \<open>available_years sales_df =
     sorted_reverse (remdups (map the (dropna (map year (delivered sales_df)))))\<close>

text \<open>\<^verbatim>\<open>xs.index(v)\<close>: the first position of \<open>v\<close>; the caller checks \<open>v in xs\<close> first.\<close>

fun list_index :: "'a list \<Rightarrow> 'a \<Rightarrow> nat" where
  \<open>list_index [] v = 0\<close>
| \<open>list_index (x # xs) v = (if x = v then 0 else Suc (list_index xs v))\<close>

definition default_yr_idx :: "int list \<Rightarrow> nat" where
  \<open>default_yr_idx years = (if 2023 \<in> set years then list_index years 2023 else 0)\<close>

text \<open>
  \<^verbatim>\<open>st.selectbox(label, options, index)\<close> before any interaction: the option at \<open>index\<close>,
  and \<^verbatim>\<open>None\<close> when there is no option at all.
\<close>

definition selectbox :: "'a list \<Rightarrow> nat \<Rightarrow> 'a option" where
  \<open>selectbox options idx = (if options = [] then None else Some (options ! idx))\<close>

definition analysis_year :: "sales_row list \<Rightarrow> int option" where
  \<open>analysis_year sales_df =
     selectbox (available_years sales_df) (default_yr_idx (available_years sales_df))\<close>

text \<open>A small \<^verbatim>\<open>sales_df\<close> to run the selector on.\<close>

definition example_sales :: "sales_row list" where
  \<open>example_sales =
     [\<lparr>order_status = ''delivered'', year = Some 2022\<rparr>,
      \<lparr>order_status = ''delivered'', year = Some 2024\<rparr>,
      \<lparr>order_status = ''canceled'', year = Some 2023\<rparr>,
      \<lparr>order_status = ''delivered'', year = None\<rparr>,
      \<lparr>order_status = ''delivered'', year = Some 2022\<rparr>]\<close>

subsection \<open>Period filtering and KPI calculations\<close>

text \<open>
  The script calls functions of the modules \<^verbatim>\<open>data_loader\<close> and \<^verbatim>\<open>business_metrics\<close>.
  They are parameters here, collected in one record, so that what is shown about the
  script holds for whatever these functions compute. A data frame is the list of its rows.
\<close>

record 'row metrics =
  filter_by_period :: "'row list \<Rightarrow> int \<Rightarrow> int option \<Rightarrow> 'row list"
  calculate_delivery_speed :: "'row list \<Rightarrow> 'row list"
  calculate_revenue :: "'row list \<Rightarrow> pyval"
  calculate_avg_order_value :: "'row list \<Rightarrow> pyval"
  calculate_order_count :: "'row list \<Rightarrow> pyval"

record 'row kpis =
  current_df :: "'row list"
  comparison_df :: "'row list"
  has_comparison :: bool
  revenue :: pyval
  prev_rev :: pyval
  aov :: pyval
  prev_aov :: pyval
  orders :: pyval
  prev_orders :: pyval

definition kpi_calculations ::
  "'row metrics \<Rightarrow> 'row list \<Rightarrow> int \<Rightarrow> int option \<Rightarrow> 'row kpis" where
  \<open>kpi_calculations fs delivered_df analysis_yr analysis_month =
     (let comparison_year = analysis_yr - 1;
          cur = calculate_delivery_speed fs
                  (filter_by_period fs delivered_df analysis_yr analysis_month);
          cmp = calculate_delivery_speed fs
                  (filter_by_period fs delivered_df comparison_year analysis_month);
          has = (cmp \<noteq> [])
      in \<lparr> current_df = cur, comparison_df = cmp, has_comparison = has,
           revenue = calculate_revenue fs cur,
           prev_rev = (if has then calculate_revenue fs cmp else PNone),
           aov = calculate_avg_order_value fs cur,
           prev_aov = (if has then calculate_avg_order_value fs cmp else PNone),
           orders = calculate_order_count fs cur,
           prev_orders = (if has then calculate_order_count fs cmp else PNone) \<rparr>)\<close>

text \<open>
  Modelled from the spec: the functions of \<^verbatim>\<open>data_loader\<close> and \<^verbatim>\<open>business_metrics\<close> are
  not among the sources. One instance of the parameters is written from the spec's words,
  to run the script on. Its rows are the spec's order line records: order identifier,
  unit price, status, derived year and month.
\<close>

record order_line = sales_row +
  order_id :: nat
  price :: rat
  month :: "int option"

text \<open>
  Modelled from the spec: \<^verbatim>\<open>filter_by_period\<close> of \<^verbatim>\<open>data_loader\<close>. It keeps the records
  whose derived year equals the given year and, when a month is given, whose derived
  month equals it.
\<close>

definition spec_filter_by_period :: "order_line list \<Rightarrow> int \<Rightarrow> int option \<Rightarrow> order_line list" where
  \<open>spec_filter_by_period records y m =
     filter (\<lambda>r. year r = Some y \<and> (case m of None \<Rightarrow> True | Some k \<Rightarrow> month r = Some k)) records\<close>

text \<open>
  Modelled from the spec: the order count of \<^verbatim>\<open>business_metrics\<close>, the number of distinct
  order identifiers.
\<close>

definition spec_order_count :: "order_line list \<Rightarrow> nat" where
  \<open>spec_order_count records = length (remdups (map order_id records))\<close>

text \<open>
  Modelled from the spec: the calculators of \<^verbatim>\<open>business_metrics\<close> and the delivery-speed
  step of \<^verbatim>\<open>data_loader\<close>. Revenue is the sum of the unit prices; the average order value
  is revenue over order count, undefined without orders; the delivery speed adds a column
  and leaves the rows.
\<close>

definition spec_metrics :: "order_line metrics" where
  \<open>spec_metrics =
     \<lparr> filter_by_period = spec_filter_by_period,
       calculate_delivery_speed = (\<lambda>records. records),
       calculate_revenue = (\<lambda>records. PNum (sum_list (map price records))),
       calculate_avg_order_value =
         (\<lambda>records. if spec_order_count records = 0 then PNaN
                     else PNum (sum_list (map price records) / of_nat (spec_order_count records))),
       calculate_order_count = (\<lambda>records. PNum (of_nat (spec_order_count records))) \<rparr>\<close>

text \<open>
  The order lines of the spec's end-to-end scenario (three in January 2023, one in
  February 2023), with one line of January 2022 added.
\<close>

definition example_lines :: "order_line list" where
  \<open>example_lines =
     [\<lparr>order_status = ''delivered'', year = Some 2023, order_id = 101, price = 100, month = Some 1\<rparr>,
      \<lparr>order_status = ''delivered'', year = Some 2023, order_id = 102, price = 200, month = Some 1\<rparr>,
      \<lparr>order_status = ''delivered'', year = Some 2023, order_id = 103, price = 300, month = Some 1\<rparr>,
      \<lparr>order_status = ''delivered'', year = Some 2023, order_id = 104, price = 150, month = Some 2\<rparr>,
      \<lparr>order_status = ''delivered'', year = Some 2022, order_id = 105, price = 50, month = Some 1\<rparr>]\<close>

text \<open>
  \<^verbatim>\<open>avg_mom = mom_series.mean() if not mom_series.dropna().empty else 0.0\<close>, on the series
  that \<^verbatim>\<open>calculate_mom_growth\<close> returned.
\<close>

definition avg_mom :: "series \<Rightarrow> rat option" where
  \<open>avg_mom mom_series = (if dropna mom_series \<noteq> [] then series_mean mom_series else Some 0)\<close>

subsection \<open>Delivery satisfaction chart\<close>

text \<open>
  The two columns of \<^verbatim>\<open>sat_df\<close> that the chart reads. \<^verbatim>\<open>groupby(key)[col].mean()\<close> gives
  one mean per key that occurs, and \<^verbatim>\<open>reindex(labels)\<close> looks each label up, a label
  without a group getting a missing value. The order in which \<^verbatim>\<open>groupby\<close> lists the keys
  is lost in \<^verbatim>\<open>reindex\<close>, so the keys are kept in order of first occurrence.
\<close>

record sat_row =
  delivery_bucket :: string
  review_score :: "rat option"

definition groupby_mean :: "sat_row list \<Rightarrow> (string \<times> rat option) list" where
  \<open>groupby_mean df =
     map (\<lambda>k. (k, series_mean (map review_score (filter (\<lambda>r. delivery_bucket r = k) df))))
         (remdups (map delivery_bucket df))\<close>

definition reindex :: "(string \<times> rat option) list \<Rightarrow> string list \<Rightarrow> (string \<times> rat option) list" where
  \<open>reindex s labels =
     map (\<lambda>b. (b, case map_of s b of None \<Rightarrow> None | Some v \<Rightarrow> v)) labels\<close>

definition buckets :: "string list" where
  \<open>buckets = [''1-3 days'', ''4-7 days'', ''8+ days'']\<close>

definition bucket_means :: "sat_row list \<Rightarrow> (string \<times> rat option) list" where
  \<open>bucket_means sat_df =
     reindex (groupby_mean (filter (\<lambda>r. delivery_bucket r \<noteq> ''Unknown'') sat_df)) buckets\<close>


section \<open>Properties of the number formats\<close>

lemma digit_char_cases:
  \<open>d < 10 \<Longrightarrow> d = 0 \<or> d = 1 \<or> d = 2 \<or> d = 3 \<or> d = 4 \<or> d = 5 \<or> d = 6 \<or> d = 7 \<or> d = 8 \<or> d = (9::nat)\<close>
  by arith

lemma digit_value_digit_char: \<open>d < 10 \<Longrightarrow> digit_value (digit_char d) = d\<close>
  using digit_char_cases [of d] by (auto simp: digit_value_def digit_char_def)

lemma read_nat_snoc: \<open>read_nat (s @ [c]) = 10 * read_nat s + digit_value c\<close>
  by (simp add: read_nat_def)

lemma read_nat_str_nat: \<open>read_nat (str_nat n) = n\<close>
proof (induction n rule: str_nat.induct)
  case (1 n)
  show ?case
  proof (cases \<open>n < 10\<close>)
    case True
    then show ?thesis
      by (subst str_nat.simps) (simp add: read_nat_def digit_value_digit_char)
  next
    case False
    with 1 have \<open>read_nat (str_nat (n div 10)) = n div 10\<close> by simp
    with False show ?thesis
      by (subst str_nat.simps) (simp add: read_nat_snoc digit_value_digit_char)
  qed
qed

lemma length_str_nat: \<open>n < 10 ^ d \<Longrightarrow> 0 < d \<Longrightarrow> length (str_nat n) \<le> d\<close>
proof (induction n arbitrary: d rule: str_nat.induct)
  case (1 n)
  show ?case
  proof (cases \<open>n < 10\<close>)
    case True
    then show ?thesis using 1(3) by (subst str_nat.simps) simp
  next
    case False
    obtain e where d: \<open>d = Suc e\<close> using 1(3) by (cases d) auto
    have \<open>0 < e\<close> using False 1(2) d by (cases e) auto
    moreover have \<open>n div 10 < 10 ^ e\<close> using 1(2) d by (simp add: less_mult_imp_div_less mult.commute)
    ultimately have \<open>length (str_nat (n div 10)) \<le> e\<close> using 1(1) False by simp
    with False d show ?thesis by (subst str_nat.simps) simp
  qed
qed

lemma length_zero_pad: \<open>length s \<le> w \<Longrightarrow> length (zero_pad w s) = w\<close>
  by (simp add: zero_pad_def)

lemma round_half_even_near: \<open>\<bar>of_int (round_half_even x) - x\<bar> \<le> 1 / 2\<close>
  unfolding round_half_even_def Let_def
  by (auto simp: abs_if; linarith)

lemma round_half_even_nonneg: \<open>0 \<le> x \<Longrightarrow> 0 \<le> round_half_even x\<close>
  unfolding round_half_even_def Let_def by auto

lemma round_half_even_pos: \<open>1 \<le> x \<Longrightarrow> 0 < round_half_even x\<close>
proof -
  assume \<open>1 \<le> x\<close>
  then have \<open>1 \<le> \<lfloor>x\<rfloor>\<close> by (simp add: le_floor_iff)
  then show ?thesis unfolding round_half_even_def Let_def by auto
qed

lemma power_int_2_succ: \<open>(2::rat) powi (e + 1) = 2 powi e * 2\<close>
  by (rule power_int_add_1) simp

lemma power_int_2_pred: \<open>(2::rat) powi (e - 1) = 2 powi e / 2\<close>
  using power_int_2_succ [of \<open>e - 1\<close>] by simp

lemma floor_log2_bounds:
  \<open>0 < x \<Longrightarrow> 2 powi floor_log2 x \<le> x \<and> x < 2 powi (floor_log2 x + 1)\<close>
proof (induction x rule: floor_log2.induct)
  case (1 x)
  show ?case
  proof (cases \<open>2 \<le> x\<close>)
    case True
    then have eq: \<open>floor_log2 x = floor_log2 (x / 2) + 1\<close>
      using 1(3) by (subst floor_log2.simps) simp
    have \<open>2 powi floor_log2 (x / 2) \<le> x / 2 \<and> x / 2 < 2 powi (floor_log2 (x / 2) + 1)\<close>
      using 1(1) 1(3) True by simp
    then have \<open>2 powi floor_log2 (x / 2) * 2 \<le> x \<and>
               x < 2 powi (floor_log2 (x / 2) + 1) * 2\<close>
      by (simp add: field_simps)
    then show ?thesis
      unfolding eq
      using power_int_2_succ [of \<open>floor_log2 (x / 2)\<close>]
            power_int_2_succ [of \<open>floor_log2 (x / 2) + 1\<close>]
      by simp
  next
    case False
    show ?thesis
    proof (cases \<open>x < 1\<close>)
      case True
      then have eq: \<open>floor_log2 x = floor_log2 (x * 2) - 1\<close>
        using 1(3) False by (subst floor_log2.simps) simp
      have \<open>2 powi floor_log2 (x * 2) \<le> x * 2 \<and> x * 2 < 2 powi (floor_log2 (x * 2) + 1)\<close>
        using 1(2) 1(3) True False by simp
      then have \<open>2 powi floor_log2 (x * 2) / 2 \<le> x \<and>
                 x < 2 powi (floor_log2 (x * 2) + 1) / 2\<close>
        by (simp add: field_simps)
      then show ?thesis
        unfolding eq
        using power_int_2_pred [of \<open>floor_log2 (x * 2)\<close>]
              power_int_2_pred [of \<open>floor_log2 (x * 2) + 1\<close>]
        by simp
    next
      case ge1: False
      then have \<open>floor_log2 x = 0\<close>
        using 1(3) False by (subst floor_log2.simps) simp
      then show ?thesis using False ge1 by simp
    qed
  qed
qed

lemma double_ulp_pos: \<open>0 < double_ulp x\<close>
  by (simp add: double_ulp_def)

lemma double_ulp_minus: \<open>double_ulp (- x) = double_ulp x\<close>
  by (simp add: double_ulp_def)

lemma round_double_zero: \<open>round_double 0 = 0\<close>
  by (simp add: round_double_def)

lemma round_double_minus: \<open>round_double (- x) = - round_double x\<close>
  by (simp add: round_double_def double_ulp_minus sgn_minus)

lemma round_double_nonneg: \<open>0 \<le> x \<Longrightarrow> 0 \<le> round_double x\<close>
proof -
  assume x: \<open>0 \<le> x\<close>
  have \<open>0 \<le> \<bar>x\<bar> / double_ulp x\<close> using double_ulp_pos [of x] by simp
  then have \<open>0 \<le> round_half_even (\<bar>x\<bar> / double_ulp x)\<close> by (rule round_half_even_nonneg)
  then show ?thesis
    using x double_ulp_pos [of x] by (simp add: round_double_def sgn_if)
qed

lemma round_double_nonpos: \<open>x \<le> 0 \<Longrightarrow> round_double x \<le> 0\<close>
  using round_double_nonneg [of \<open>- x\<close>] by (simp add: round_double_minus)

lemma round_double_pos_imp: \<open>0 < round_double x \<Longrightarrow> 0 < x\<close>
  using round_double_nonpos [of x] by (cases \<open>0 < x\<close>) auto

lemma round_double_neg_imp: \<open>round_double x < 0 \<Longrightarrow> x < 0\<close>
  using round_double_nonneg [of x] by (cases \<open>x < 0\<close>) auto

lemma round_double_near: \<open>\<bar>round_double x - x\<bar> \<le> double_ulp x / 2\<close>
proof -
  let ?u = \<open>double_ulp x\<close>
  let ?n = \<open>round_half_even (\<bar>x\<bar> / ?u)\<close>
  have u: \<open>0 < ?u\<close> by (rule double_ulp_pos)
  have \<open>\<bar>of_int ?n - \<bar>x\<bar> / ?u\<bar> \<le> 1 / 2\<close> by (rule round_half_even_near)
  then have \<open>\<bar>of_int ?n - \<bar>x\<bar> / ?u\<bar> * ?u \<le> 1 / 2 * ?u\<close>
    using u by (simp only: mult_le_cancel_right_pos)
  moreover have \<open>\<bar>of_int ?n - \<bar>x\<bar> / ?u\<bar> * ?u = \<bar>of_int ?n * ?u - \<bar>x\<bar>\<bar>\<close>
  proof -
    have \<open>\<bar>of_int ?n - \<bar>x\<bar> / ?u\<bar> * ?u = \<bar>(of_int ?n - \<bar>x\<bar> / ?u) * ?u\<bar>\<close>
      using u by (simp add: abs_mult)
    also have \<open>(of_int ?n - \<bar>x\<bar> / ?u) * ?u = of_int ?n * ?u - \<bar>x\<bar>\<close>
      using u by (simp add: field_simps)
    finally show ?thesis .
  qed
  ultimately have near: \<open>\<bar>of_int ?n * ?u - \<bar>x\<bar>\<bar> \<le> ?u / 2\<close> by simp
  show ?thesis
  proof (cases \<open>0 \<le> x\<close>)
    case True
    then show ?thesis
      using near by (cases \<open>x = 0\<close>) (simp_all add: round_double_def sgn_if)
  next
    case False
    then have \<open>round_double x - x = - (of_int ?n * ?u - \<bar>x\<bar>)\<close>
      by (simp add: round_double_def sgn_if)
    then have \<open>\<bar>round_double x - x\<bar> = \<bar>of_int ?n * ?u - \<bar>x\<bar>\<bar>\<close>
      by (simp only: abs_minus)
    then show ?thesis using near by (simp only:)
  qed
qed

lemma double_ulp_le:
  assumes \<open>1 \<le> \<bar>x\<bar>\<close>
  shows \<open>double_ulp x \<le> \<bar>x\<bar>\<close>
proof -
  have pos: \<open>0 < \<bar>x\<bar>\<close> using assms by simp
  have b: \<open>2 powi floor_log2 \<bar>x\<bar> \<le> \<bar>x\<bar>\<close>
    using floor_log2_bounds [OF pos] by simp
  have \<open>max (floor_log2 \<bar>x\<bar>) (- 1022) - 52 \<le> floor_log2 \<bar>x\<bar> \<or>
        max (floor_log2 \<bar>x\<bar>) (- 1022) - 52 \<le> 0\<close>
    by linarith
  then show ?thesis
  proof
    assume \<open>max (floor_log2 \<bar>x\<bar>) (- 1022) - 52 \<le> floor_log2 \<bar>x\<bar>\<close>
    then have \<open>(2::rat) powi (max (floor_log2 \<bar>x\<bar>) (- 1022) - 52) \<le> 2 powi floor_log2 \<bar>x\<bar>\<close>
      by (rule power_int_increasing) simp
    then show ?thesis using b by (simp add: double_ulp_def)
  next
    assume \<open>max (floor_log2 \<bar>x\<bar>) (- 1022) - 52 \<le> 0\<close>
    then have \<open>(2::rat) powi (max (floor_log2 \<bar>x\<bar>) (- 1022) - 52) \<le> 2 powi 0\<close>
      by (rule power_int_increasing) simp
    then show ?thesis using assms by (simp add: double_ulp_def)
  qed
qed

lemma round_double_pos: \<open>1 \<le> x \<Longrightarrow> 0 < round_double x\<close>
proof -
  assume x: \<open>1 \<le> x\<close>
  then have \<open>double_ulp x \<le> \<bar>x\<bar>\<close> by (intro double_ulp_le) simp
  then have \<open>1 \<le> \<bar>x\<bar> / double_ulp x\<close>
    using double_ulp_pos [of x] by (simp add: pos_le_divide_eq)
  then have \<open>0 < round_half_even (\<bar>x\<bar> / double_ulp x)\<close> by (rule round_half_even_pos)
  then show ?thesis
    using x double_ulp_pos [of x] by (simp add: round_double_def sgn_if)
qed

lemma round_double_neg: \<open>x \<le> - 1 \<Longrightarrow> round_double x < 0\<close>
  using round_double_pos [of \<open>- x\<close>] by (simp add: round_double_minus)

lemma format_fixed_unsigned:
  \<open>0 \<le> x \<Longrightarrow> 0 < d \<Longrightarrow>
     format_fixed d x =
       str_nat (nat (round_half_even (x * 10 ^ d)) div 10 ^ d) @ ''.''
       @ zero_pad d (str_nat (nat (round_half_even (x * 10 ^ d)) mod 10 ^ d))\<close>
  by (simp add: format_fixed_def Let_def)

lemma format_fixed_decimals:
  \<open>0 < d \<Longrightarrow> length (zero_pad d (str_nat (n mod 10 ^ d))) = d\<close>
  by (rule length_zero_pad, rule length_str_nat) simp_all

lemma trend_badge_example_up:
  \<open>trend_badge (PNum 110) (PNum 100) False
     = ''<span style="color:#16a34a">'' @ up_arrow @ '' 10.00%</span>''\<close>
  by code_simp

lemma trend_badge_example_down:
  \<open>trend_badge (PNum 90) (PNum 100) True
     = ''<span style="color:#16a34a">'' @ down_arrow @ '' 10.00%</span>''\<close>
  by code_simp

lemma trend_badge_example_rounded:
  \<open>trend_badge (PNum 183) (PNum 160) False
     = ''<span style="color:#16a34a">'' @ up_arrow @ '' 14.37%</span>''\<close>
  by code_simp


lemma digit_char_not_minus: \<open>d < 10 \<Longrightarrow> digit_char d \<noteq> CHR ''-''\<close>
  using digit_char_cases [of d] by (auto simp: digit_char_def)

lemma str_nat_no_minus: \<open>CHR ''-'' \<notin> set (str_nat n)\<close>
proof (induction n rule: str_nat.induct)
  case (1 n)
  show ?case
  proof (cases \<open>n < 10\<close>)
    case True
    then show ?thesis
      using digit_char_not_minus [of n] by (subst str_nat.simps) auto
  next
    case False
    have \<open>digit_char (n mod 10) \<noteq> CHR ''-''\<close> by (rule digit_char_not_minus) simp
    with False 1 show ?thesis by (subst str_nat.simps) auto
  qed
qed

lemma zero_pad_no_minus: \<open>CHR ''-'' \<notin> set s \<Longrightarrow> CHR ''-'' \<notin> set (zero_pad w s)\<close>
  by (auto simp: zero_pad_def)

lemma format_fixed_no_minus: \<open>0 \<le> x \<Longrightarrow> CHR ''-'' \<notin> set (format_fixed d x)\<close>
  using str_nat_no_minus zero_pad_no_minus [OF str_nat_no_minus]
  by (simp add: format_fixed_def Let_def)

lemma round_two_decimals_near:
  \<open>\<bar>of_int (round_half_even (y * 100)) / 100 - y\<bar> \<le> 1 / 200\<close>
proof -
  have \<open>\<bar>of_int (round_half_even (y * 100)) - y * 100\<bar> \<le> 1 / 2\<close>
    by (rule round_half_even_near)
  then have \<open>\<bar>(of_int (round_half_even (y * 100)) - y * 100) / 100\<bar> \<le> (1 / 2) / 100\<close>
    by (simp only: abs_divide) simp
  then show ?thesis by (simp add: diff_divide_distrib)
qed

section \<open>Properties of the trend badge\<close>

lemma format_fixed_2_zero: \<open>format_fixed 2 0 = ''0.00''\<close>
  by code_simp

lemma trend_pct_same: \<open>p \<noteq> 0 \<Longrightarrow> trend_pct p p = 0\<close>
  by (simp add: trend_pct_def round_double_zero)

lemma trend_pct_pos_imp: \<open>p \<noteq> 0 \<Longrightarrow> 0 < trend_pct c p \<Longrightarrow> p < c\<close>
proof -
  assume p: \<open>p \<noteq> 0\<close> and pct: \<open>0 < trend_pct c p\<close>
  have \<open>0 < round_double (round_double (c - p) / \<bar>p\<bar>) * 100\<close>
    using pct unfolding trend_pct_def by (rule round_double_pos_imp)
  then have \<open>0 < round_double (round_double (c - p) / \<bar>p\<bar>)\<close> by simp
  then have \<open>0 < round_double (c - p) / \<bar>p\<bar>\<close> by (rule round_double_pos_imp)
  then have \<open>0 < round_double (c - p)\<close> using p by (simp add: zero_less_divide_iff)
  then have \<open>0 < c - p\<close> by (rule round_double_pos_imp)
  then show ?thesis by simp
qed

lemma trend_pct_neg_imp: \<open>p \<noteq> 0 \<Longrightarrow> trend_pct c p < 0 \<Longrightarrow> c < p\<close>
proof -
  assume p: \<open>p \<noteq> 0\<close> and pct: \<open>trend_pct c p < 0\<close>
  have \<open>round_double (round_double (c - p) / \<bar>p\<bar>) * 100 < 0\<close>
    using pct unfolding trend_pct_def by (rule round_double_neg_imp)
  then have \<open>round_double (round_double (c - p) / \<bar>p\<bar>) < 0\<close> by simp
  then have \<open>round_double (c - p) / \<bar>p\<bar> < 0\<close> by (rule round_double_neg_imp)
  then have \<open>round_double (c - p) < 0\<close> using p by (simp add: divide_less_0_iff)
  then have \<open>c - p < 0\<close> by (rule round_double_neg_imp)
  then show ?thesis by simp
qed

text \<open>
  The computed percentage against the exact one: the three rounding errors, the first
  two carried through the operations that follow them.
\<close>

lemma abs_diff_times_100:
  fixes a b u :: rat
  assumes \<open>\<bar>a - b\<bar> \<le> u\<close>
  shows \<open>\<bar>a * 100 - b * 100\<bar> \<le> 100 * u\<close>
proof -
  have \<open>a - b \<le> u\<close> and \<open>- (a - b) \<le> u\<close>
    using assms by (simp_all only: abs_le_iff)
  then have \<open>a * 100 - b * 100 \<le> 100 * u\<close> and \<open>- (a * 100 - b * 100) \<le> 100 * u\<close>
    by linarith+
  then show ?thesis by (simp only: abs_le_iff)
qed

lemma trend_pct_error:
  assumes \<open>p \<noteq> 0\<close>
  shows \<open>\<bar>trend_pct c p - (c - p) / \<bar>p\<bar> * 100\<bar>
           \<le> double_ulp (round_double (round_double (c - p) / \<bar>p\<bar>) * 100) / 2
             + 100 * (double_ulp (round_double (c - p) / \<bar>p\<bar>) / 2)
             + 100 * (double_ulp (c - p) / 2 / \<bar>p\<bar>)\<close>
proof -
  let ?d = \<open>round_double (c - p)\<close>
  let ?q = \<open>round_double (?d / \<bar>p\<bar>)\<close>
  have e3: \<open>\<bar>round_double (?q * 100) - ?q * 100\<bar> \<le> double_ulp (?q * 100) / 2\<close>
    by (rule round_double_near)
  have \<open>\<bar>?q - ?d / \<bar>p\<bar>\<bar> \<le> double_ulp (?d / \<bar>p\<bar>) / 2\<close>
    by (rule round_double_near)
  then have e2: \<open>\<bar>?q * 100 - ?d / \<bar>p\<bar> * 100\<bar> \<le> 100 * (double_ulp (?d / \<bar>p\<bar>) / 2)\<close>
    by (rule abs_diff_times_100)
  have \<open>\<bar>?d - (c - p)\<bar> \<le> double_ulp (c - p) / 2\<close>
    by (rule round_double_near)
  then have \<open>\<bar>?d - (c - p)\<bar> / \<bar>p\<bar> \<le> double_ulp (c - p) / 2 / \<bar>p\<bar>\<close>
    by (rule divide_right_mono) simp
  moreover have \<open>\<bar>?d / \<bar>p\<bar> - (c - p) / \<bar>p\<bar>\<bar> = \<bar>?d - (c - p)\<bar> / \<bar>p\<bar>\<close>
  proof -
    have \<open>?d / \<bar>p\<bar> - (c - p) / \<bar>p\<bar> = (?d - (c - p)) / \<bar>p\<bar>\<close>
      by (simp only: diff_divide_distrib)
    then show ?thesis by (simp only: abs_divide abs_abs)
  qed
  ultimately have \<open>\<bar>?d / \<bar>p\<bar> - (c - p) / \<bar>p\<bar>\<bar> \<le> double_ulp (c - p) / 2 / \<bar>p\<bar>\<close>
    by (simp only:)
  then have e1: \<open>\<bar>?d / \<bar>p\<bar> * 100 - (c - p) / \<bar>p\<bar> * 100\<bar> \<le> 100 * (double_ulp (c - p) / 2 / \<bar>p\<bar>)\<close>
    by (rule abs_diff_times_100)
  show ?thesis
    unfolding trend_pct_def using e1 e2 e3 by linarith
qed

text \<open>
  Claim C10. When current equals previous, both defined and previous not 0, the
  percentage change is exactly 0 and the badge is the down arrow with \<^verbatim>\<open>0.00%\<close> in the
  unfavorable colour \<^verbatim>\<open>#dc2626\<close>, whatever the \<^verbatim>\<open>lower_is_better\<close> flag: a zero change is
  never favorable and never shown with an up arrow.
\<close>

theorem trend_badge_zero_change:
  \<open>x \<noteq> 0 \<Longrightarrow>
     trend_pct x x = 0 \<and>
     trend_badge (PNum x) (PNum x) lower_is_better
       = ''<span style="color:#dc2626">'' @ down_arrow @ '' 0.00%</span>''\<close>
  by (simp add: trend_badge_def isna_def trend_pct_same format_fixed_2_zero)

theorem trend_badge_zero_change_witness:
  \<open>(250::rat) \<noteq> 0 \<and> trend_pct 250 250 = 0 \<and>
     trend_badge (PNum 250) (PNum 250) True
       = ''<span style="color:#dc2626">'' @ down_arrow @ '' 0.00%</span>'' \<and>
     trend_badge (PNum 250) (PNum 250) False
       = ''<span style="color:#dc2626">'' @ down_arrow @ '' 0.00%</span>''\<close>
  using trend_badge_zero_change [of 250 True] trend_badge_zero_change [of 250 False] by simp

text \<open>
  Claim C2. The badge is the neutral em-dash badge if and only if previous is \<^verbatim>\<open>None\<close>,
  not-a-number or 0, or current is \<^verbatim>\<open>None\<close> or not-a-number. So a previous value of 0 or
  an undefined one gives the em-dash badge for every current value, and that badge holds
  no percent sign: no percentage is computed.
\<close>

theorem trend_badge_no_data_iff:
  \<open>((trend_badge current previous lower_is_better = no_data_badge) =
      (previous = PNone \<or> previous = PNaN \<or> previous = PNum 0
       \<or> current = PNone \<or> current = PNaN)) \<and>
     trend_badge x (PNum 0) lower_is_better = no_data_badge \<and>
     trend_badge x PNone lower_is_better = no_data_badge \<and>
     trend_badge x PNaN lower_is_better = no_data_badge \<and>
     CHR ''%'' \<notin> set no_data_badge\<close>
proof -
  have \<open>(trend_badge current previous lower_is_better = no_data_badge) =
      (previous = PNone \<or> previous = PNaN \<or> previous = PNum 0
       \<or> current = PNone \<or> current = PNaN)\<close>
    by (cases current; cases previous)
       (simp_all add: trend_badge_def isna_def Let_def no_data_badge_def)
  moreover have \<open>CHR ''%'' \<notin> set no_data_badge\<close>
    by (simp add: no_data_badge_def em_dash_def)
  ultimately show ?thesis
    by (simp add: trend_badge_def isna_def)
qed

theorem trend_badge_no_data_iff_witness:
  \<open>trend_badge (PNum 110) (PNum 0) False = no_data_badge \<and>
     trend_badge (PNum 110) PNaN True = no_data_badge \<and>
     trend_badge PNone (PNum 100) False = no_data_badge \<and>
     trend_badge (PNum 110) (PNum 100) False \<noteq> no_data_badge\<close>
  using trend_badge_no_data_iff [of \<open>PNum 110\<close> \<open>PNum 0\<close> False]
        trend_badge_no_data_iff [of \<open>PNum 110\<close> PNaN True]
        trend_badge_no_data_iff [of PNone \<open>PNum 100\<close> False]
        trend_badge_no_data_iff [of \<open>PNum 110\<close> \<open>PNum 100\<close> False]
  by simp

lemma trend_badge_numbers:
  \<open>p \<noteq> 0 \<Longrightarrow>
     trend_badge (PNum c) (PNum p) lower_is_better
       = ''<span style="color:''
         @ (if (if lower_is_better then trend_pct c p < 0 else 0 < trend_pct c p)
            then ''#16a34a'' else ''#dc2626'')
         @ ''">'' @ (if 0 < trend_pct c p then up_arrow else down_arrow) @ '' ''
         @ format_fixed 2 \<bar>trend_pct c p\<bar> @ ''%</span>''\<close>
  by (simp add: trend_badge_def isna_def Let_def)

text \<open>
  Claim C3. For defined current and previous with previous not 0, the badge shows the
  percentage change \<open>(current - previous) / \<bar>previous\<bar> \<times> 100\<close> as the code computes it, in
  double precision: it has the sign of \<open>current - previous\<close> unless it is 0, and differs
  from the exact quotient by no more than the three rounding errors. The badge has the up
  arrow when the percentage is positive and the down arrow otherwise; the favorable
  colour \<^verbatim>\<open>#16a34a\<close> exactly when it is positive (normal metrics) or negative
  (\<^verbatim>\<open>lower_is_better\<close>), the unfavorable colour \<^verbatim>\<open>#dc2626\<close> otherwise; and its absolute
  value with two decimals: an integer part, a point and exactly two digits, the nearest
  multiple of 0.01 and without a minus sign. The badge of 110 against 100 is favorable,
  up, \<^verbatim>\<open>10.00%\<close>; that of 90 against 100 with \<^verbatim>\<open>lower_is_better\<close> is favorable, down,
  \<^verbatim>\<open>10.00%\<close>; that of 183 against 160 shows \<^verbatim>\<open>14.37%\<close>, the computed percentage lying
  just below 14.375.
\<close>

theorem trend_badge_defined:
  \<open>p \<noteq> 0 \<Longrightarrow>
     trend_pct c p
       = round_double (round_double (round_double (c - p) / \<bar>p\<bar>) * 100) \<and>
     (0 < trend_pct c p \<longrightarrow> p < c) \<and> (trend_pct c p < 0 \<longrightarrow> c < p) \<and>
     \<bar>trend_pct c p - (c - p) / \<bar>p\<bar> * 100\<bar>
       \<le> double_ulp (round_double (round_double (c - p) / \<bar>p\<bar>) * 100) / 2
         + 100 * (double_ulp (round_double (c - p) / \<bar>p\<bar>) / 2)
         + 100 * (double_ulp (c - p) / 2 / \<bar>p\<bar>) \<and>
     trend_badge (PNum c) (PNum p) lower_is_better
       = ''<span style="color:''
         @ (if (if lower_is_better then trend_pct c p < 0 else 0 < trend_pct c p)
            then ''#16a34a'' else ''#dc2626'')
         @ ''">'' @ (if 0 < trend_pct c p then up_arrow else down_arrow) @ '' ''
         @ format_fixed 2 \<bar>trend_pct c p\<bar> @ ''%</span>'' \<and>
     format_fixed 2 \<bar>trend_pct c p\<bar>
       = str_nat (nat (round_half_even (\<bar>trend_pct c p\<bar> * 100)) div 100) @ ''.''
         @ zero_pad 2 (str_nat (nat (round_half_even (\<bar>trend_pct c p\<bar> * 100)) mod 100)) \<and>
     length (zero_pad 2 (str_nat (nat (round_half_even (\<bar>trend_pct c p\<bar> * 100)) mod 100))) = 2 \<and>
     \<bar>of_int (round_half_even (\<bar>trend_pct c p\<bar> * 100)) / 100 - \<bar>trend_pct c p\<bar>\<bar> \<le> 1 / 200 \<and>
     CHR ''-'' \<notin> set (format_fixed 2 \<bar>trend_pct c p\<bar>) \<and>
     trend_badge (PNum 110) (PNum 100) False
       = ''<span style="color:#16a34a">'' @ up_arrow @ '' 10.00%</span>'' \<and>
     trend_badge (PNum 90) (PNum 100) True
       = ''<span style="color:#16a34a">'' @ down_arrow @ '' 10.00%</span>'' \<and>
     trend_badge (PNum 183) (PNum 160) False
       = ''<span style="color:#16a34a">'' @ up_arrow @ '' 14.37%</span>''\<close>
proof (intro conjI impI)
  assume p: \<open>p \<noteq> 0\<close>
  show \<open>trend_pct c p = round_double (round_double (round_double (c - p) / \<bar>p\<bar>) * 100)\<close>
    by (simp only: trend_pct_def)
  show \<open>p < c\<close> if \<open>0 < trend_pct c p\<close>
    using p that by (rule trend_pct_pos_imp)
  show \<open>c < p\<close> if \<open>trend_pct c p < 0\<close>
    using p that by (rule trend_pct_neg_imp)
  show \<open>\<bar>trend_pct c p - (c - p) / \<bar>p\<bar> * 100\<bar>
       \<le> double_ulp (round_double (round_double (c - p) / \<bar>p\<bar>) * 100) / 2
         + 100 * (double_ulp (round_double (c - p) / \<bar>p\<bar>) / 2)
         + 100 * (double_ulp (c - p) / 2 / \<bar>p\<bar>)\<close>
    using p by (rule trend_pct_error)
  show \<open>trend_badge (PNum c) (PNum p) lower_is_better
       = ''<span style="color:''
         @ (if (if lower_is_better then trend_pct c p < 0 else 0 < trend_pct c p)
            then ''#16a34a'' else ''#dc2626'')
         @ ''">'' @ (if 0 < trend_pct c p then up_arrow else down_arrow) @ '' ''
         @ format_fixed 2 \<bar>trend_pct c p\<bar> @ ''%</span>''\<close>
    using p by (rule trend_badge_numbers)
  show \<open>format_fixed 2 \<bar>trend_pct c p\<bar>
       = str_nat (nat (round_half_even (\<bar>trend_pct c p\<bar> * 100)) div 100) @ ''.''
         @ zero_pad 2 (str_nat (nat (round_half_even (\<bar>trend_pct c p\<bar> * 100)) mod 100))\<close>
    using format_fixed_unsigned [of \<open>\<bar>trend_pct c p\<bar>\<close> 2] by simp
  show \<open>length (zero_pad 2 (str_nat (nat (round_half_even (\<bar>trend_pct c p\<bar> * 100)) mod 100))) = 2\<close>
    using format_fixed_decimals [of 2 \<open>nat (round_half_even (\<bar>trend_pct c p\<bar> * 100))\<close>] by simp
  show \<open>\<bar>of_int (round_half_even (\<bar>trend_pct c p\<bar> * 100)) / 100 - \<bar>trend_pct c p\<bar>\<bar> \<le> 1 / 200\<close>
    by (rule round_two_decimals_near)
  show \<open>CHR ''-'' \<notin> set (format_fixed 2 \<bar>trend_pct c p\<bar>)\<close>
    by (rule format_fixed_no_minus) simp
  show \<open>trend_badge (PNum 110) (PNum 100) False
       = ''<span style="color:#16a34a">'' @ up_arrow @ '' 10.00%</span>''\<close>
    by (rule trend_badge_example_up)
  show \<open>trend_badge (PNum 90) (PNum 100) True
       = ''<span style="color:#16a34a">'' @ down_arrow @ '' 10.00%</span>''\<close>
    by (rule trend_badge_example_down)
  show \<open>trend_badge (PNum 183) (PNum 160) False
       = ''<span style="color:#16a34a">'' @ up_arrow @ '' 14.37%</span>''\<close>
    by (rule trend_badge_example_rounded)
qed

theorem trend_badge_defined_witness:
  \<open>(80::rat) \<noteq> 0 \<and> trend_pct 120 80 = 50 \<and> (80::rat) < 120 \<and>
     trend_badge (PNum 120) (PNum 80) True
       = ''<span style="color:#dc2626">'' @ up_arrow @ '' '' @ format_fixed 2 50 @ ''%</span>'' \<and>
     trend_badge (PNum 120) (PNum 80) False
       = ''<span style="color:#16a34a">'' @ up_arrow @ '' '' @ format_fixed 2 50 @ ''%</span>''\<close>
proof -
  have pct: \<open>trend_pct 120 80 = 50\<close> by code_simp
  have a: \<open>trend_badge (PNum 120) (PNum 80) True
       = ''<span style="color:#dc2626">'' @ up_arrow @ '' '' @ format_fixed 2 50 @ ''%</span>''\<close>
    using trend_badge_defined [of 80 120 True] by (simp add: pct)
  have b: \<open>trend_badge (PNum 120) (PNum 80) False
       = ''<span style="color:#16a34a">'' @ up_arrow @ '' '' @ format_fixed 2 50 @ ''%</span>''\<close>
    using trend_badge_defined [of 80 120 False] by (simp add: pct)
  show ?thesis using pct a b by simp
qed

section \<open>Properties of the compact currency format\<close>

lemma round_half_even_of_int: \<open>round_half_even (of_int k) = k\<close>
  by (simp add: round_half_even_def)

lemma format_fixed_0: 
  \<open>format_fixed 0 x = (if x < 0 then ''-'' else '''') @ str_nat (nat (round_half_even \<bar>x\<bar>))\<close>
  by (simp add: format_fixed_def Let_def)

lemma format_fixed_0_of_int:
  \<open>format_fixed 0 (of_int k) = (if k < 0 then ''-'' else '''') @ str_nat (nat \<bar>k\<bar>)\<close>
proof -
  have \<open>\<bar>rat_of_int k\<bar> = of_int \<bar>k\<bar>\<close> by simp
  then show ?thesis
    unfolding format_fixed_0 by (simp only: round_half_even_of_int) simp
qed

lemma format_fixed_1:
  \<open>format_fixed 1 x = (if x < 0 then ''-'' else '''')
      @ str_nat (nat (round_half_even (\<bar>x\<bar> * 10)) div 10) @ ''.''
      @ [digit_char (nat (round_half_even (\<bar>x\<bar> * 10)) mod 10)]\<close>
  by (simp add: format_fixed_def Let_def zero_pad_def str_nat.simps [of \<open>_ mod 10\<close>])

lemma round_one_decimal_near:
  \<open>\<bar>of_int (round_half_even (y * 10)) / 10 - y\<bar> \<le> 1 / 20\<close>
proof -
  have \<open>\<bar>of_int (round_half_even (y * 10)) - y * 10\<bar> \<le> 1 / 2\<close>
    by (rule round_half_even_near)
  then have \<open>\<bar>(of_int (round_half_even (y * 10)) - y * 10) / 10\<bar> \<le> (1 / 2) / 10\<close>
    by (simp only: abs_divide) simp
  then show ?thesis by (simp add: diff_divide_distrib)
qed

lemma fmt_compact_M:
  \<open>1000000 \<le> \<bar>v\<bar> \<Longrightarrow>
     fmt_compact v = ''$'' @ (if round_double (v / 1000000) \<in> \<int>
                               then format_fixed 0 (round_double (v / 1000000))
                               else format_fixed 1 (round_double (v / 1000000))) @ ''M''\<close>
  by (simp add: fmt_compact_def Let_def frac_eq_0_iff)

lemma fmt_compact_K:
  \<open>1000 \<le> \<bar>v\<bar> \<Longrightarrow> \<bar>v\<bar> < 1000000 \<Longrightarrow>
     fmt_compact v = ''$'' @ format_fixed 0 (round_double (v / 1000)) @ ''K''\<close>
  by (simp add: fmt_compact_def Let_def)

lemma fmt_compact_units:
  \<open>\<bar>v\<bar> < 1000 \<Longrightarrow> fmt_compact v = ''$'' @ format_fixed 0 v\<close>
  by (simp add: fmt_compact_def Let_def)

lemma fmt_compact_examples:
  \<open>fmt_compact 2300000 = ''$2.3M''\<close> \<open>fmt_compact 1000000 = ''$1M''\<close>
  \<open>fmt_compact 45000 = ''$45K''\<close> \<open>fmt_compact 7 = ''$7''\<close>
  by code_simp+

text \<open>
  Mantissas next to a tie of the first decimal: the double nearest to 1.05 lies above
  it, the one nearest to 1.15 below it, and so on.
\<close>

lemma fmt_compact_examples_rounded:
  \<open>fmt_compact 1050000 = ''$1.1M''\<close> \<open>fmt_compact 1150000 = ''$1.1M''\<close>
  \<open>fmt_compact 1850000 = ''$1.9M''\<close> \<open>fmt_compact 1950000 = ''$1.9M''\<close>
  by code_simp+

lemma fmt_compact_negative_examples:
  \<open>fmt_compact (- 5) = ''$-5''\<close> \<open>fmt_compact (- 2300000) = ''$-2.3M''\<close>
  by code_simp+

lemma format_fixed_neg: \<open>x < 0 \<Longrightarrow> format_fixed d x = ''-'' @ format_fixed d (- x)\<close>
  by (simp add: format_fixed_def Let_def)

lemma frac_minus_zero_iff: \<open>(frac (- x) = 0) = (frac x = (0::rat))\<close>
  by (simp add: frac_eq_0_iff)

lemma fmt_compact_neg: \<open>v < 0 \<Longrightarrow> fmt_compact v = ''$-'' @ tl (fmt_compact (- v))\<close>
proof -
  assume neg: \<open>v < 0\<close>
  consider (M) \<open>1000000 \<le> \<bar>v\<bar>\<close> | (K) \<open>1000 \<le> \<bar>v\<bar>\<close> \<open>\<bar>v\<bar> < 1000000\<close> | (U) \<open>\<bar>v\<bar> < 1000\<close>
    by linarith
  then show ?thesis
  proof cases
    case M
    let ?m = \<open>round_double (v / 1000000)\<close>
    have \<open>v / 1000000 \<le> - 1\<close> using M neg by simp
    then have m_neg: \<open>?m < 0\<close> by (rule round_double_neg)
    have opp: \<open>round_double (- (v / 1000000)) = - ?m\<close>
      by (rule round_double_minus)
    have fm: \<open>format_fixed d ?m = ''-'' @ format_fixed d (- ?m)\<close> for d
      using m_neg by (rule format_fixed_neg)
    show ?thesis
      using M by (simp add: fmt_compact_def Let_def opp fm frac_minus_zero_iff)
  next
    case K
    let ?k = \<open>round_double (v / 1000)\<close>
    have \<open>v / 1000 \<le> - 1\<close> using K neg by simp
    then have k_neg: \<open>?k < 0\<close> by (rule round_double_neg)
    have opp: \<open>round_double (- (v / 1000)) = - ?k\<close>
      by (rule round_double_minus)
    have fk: \<open>format_fixed d ?k = ''-'' @ format_fixed d (- ?k)\<close> for d
      using k_neg by (rule format_fixed_neg)
    show ?thesis
      using K by (simp add: fmt_compact_def Let_def opp fk)
  next
    case U
    have fu: \<open>format_fixed d v = ''-'' @ format_fixed d (- v)\<close> for d
      using neg by (rule format_fixed_neg)
    show ?thesis
      using U by (simp add: fmt_compact_def Let_def fu)
  qed
qed

lemma fmt_compact_nonneg_no_minus: \<open>0 \<le> v \<Longrightarrow> CHR ''-'' \<notin> set (fmt_compact v)\<close>
proof -
  assume v: \<open>0 \<le> v\<close>
  have m: \<open>0 \<le> round_double (v / 1000000)\<close> using v by (intro round_double_nonneg) simp
  have k: \<open>0 \<le> round_double (v / 1000)\<close> using v by (intro round_double_nonneg) simp
  show ?thesis
    using format_fixed_no_minus [OF m] format_fixed_no_minus [OF k]
          format_fixed_no_minus [OF v]
    by (simp add: fmt_compact_def Let_def)
qed

text \<open>
  Claim C4. A value of magnitude at least 1,000,000 is printed as \<^verbatim>\<open>$<m>M\<close>, the mantissa
  (the double \<open>v / 1000000\<close>, within half a unit in the last place of the exact quotient)
  with one decimal, or with none when the mantissa is an integer; a value of magnitude at
  least 1,000 (and below 1,000,000) as \<^verbatim>\<open>$<k>K\<close>, the mantissa \<open>v / 1000\<close> rounded to an
  integer; every other value as \<^verbatim>\<open>$<v>\<close>, rounded to an integer. Rounded to an integer
  means: the digits of an integer within 1/2 of the magnitude (the integer itself when
  the value is one); one decimal means: a point and one digit, within 1/20. So 2,300,000
  gives \<^verbatim>\<open>$2.3M\<close>, 1,000,000 gives \<^verbatim>\<open>$1M\<close>, 45,000 gives \<^verbatim>\<open>$45K\<close> and 7 gives \<^verbatim>\<open>$7\<close>; and
  1,050,000 gives \<^verbatim>\<open>$1.1M\<close>, 1,150,000 gives \<^verbatim>\<open>$1.1M\<close>, 1,850,000 and 1,950,000 give
  \<^verbatim>\<open>$1.9M\<close>, by the side of the tie on which the double mantissa lies.
\<close>

theorem fmt_compact_branches:
  \<open>(1000000 \<le> \<bar>v\<bar> \<longrightarrow>
       fmt_compact v = ''$'' @ (if round_double (v / 1000000) \<in> \<int>
                                 then format_fixed 0 (round_double (v / 1000000))
                                 else format_fixed 1 (round_double (v / 1000000))) @ ''M'') \<and>
     (1000 \<le> \<bar>v\<bar> \<and> \<bar>v\<bar> < 1000000 \<longrightarrow>
       fmt_compact v = ''$'' @ format_fixed 0 (round_double (v / 1000)) @ ''K'') \<and>
     (\<bar>v\<bar> < 1000 \<longrightarrow> fmt_compact v = ''$'' @ format_fixed 0 v) \<and>
     \<bar>round_double x - x\<bar> \<le> double_ulp x / 2 \<and>
     format_fixed 0 x = (if x < 0 then ''-'' else '''') @ str_nat (nat (round_half_even \<bar>x\<bar>)) \<and>
     \<bar>of_int (round_half_even \<bar>x\<bar>) - \<bar>x\<bar>\<bar> \<le> 1 / 2 \<and>
     format_fixed 0 (of_int k) = (if k < 0 then ''-'' else '''') @ str_nat (nat \<bar>k\<bar>) \<and>
     format_fixed 1 x = (if x < 0 then ''-'' else '''')
        @ str_nat (nat (round_half_even (\<bar>x\<bar> * 10)) div 10) @ ''.''
        @ [digit_char (nat (round_half_even (\<bar>x\<bar> * 10)) mod 10)] \<and>
     \<bar>of_int (round_half_even (\<bar>x\<bar> * 10)) / 10 - \<bar>x\<bar>\<bar> \<le> 1 / 20 \<and>
     read_nat (str_nat n) = n \<and>
     fmt_compact 2300000 = ''$2.3M'' \<and> fmt_compact 1000000 = ''$1M'' \<and>
     fmt_compact 45000 = ''$45K'' \<and> fmt_compact 7 = ''$7'' \<and>
     fmt_compact 1050000 = ''$1.1M'' \<and> fmt_compact 1150000 = ''$1.1M'' \<and>
     fmt_compact 1850000 = ''$1.9M'' \<and> fmt_compact 1950000 = ''$1.9M''\<close>
proof (intro conjI impI)
  show \<open>fmt_compact v = ''$'' @ (if round_double (v / 1000000) \<in> \<int>
                                 then format_fixed 0 (round_double (v / 1000000))
                                 else format_fixed 1 (round_double (v / 1000000))) @ ''M''\<close>
    if \<open>1000000 \<le> \<bar>v\<bar>\<close> using that by (rule fmt_compact_M)
  show \<open>fmt_compact v = ''$'' @ format_fixed 0 (round_double (v / 1000)) @ ''K''\<close>
    if \<open>1000 \<le> \<bar>v\<bar> \<and> \<bar>v\<bar> < 1000000\<close> using that by (simp add: fmt_compact_K)
  show \<open>fmt_compact v = ''$'' @ format_fixed 0 v\<close> if \<open>\<bar>v\<bar> < 1000\<close>
    using that by (rule fmt_compact_units)
  show \<open>\<bar>round_double x - x\<bar> \<le> double_ulp x / 2\<close>
    by (rule round_double_near)
  show \<open>format_fixed 0 x = (if x < 0 then ''-'' else '''') @ str_nat (nat (round_half_even \<bar>x\<bar>))\<close>
    by (rule format_fixed_0)
  show \<open>\<bar>of_int (round_half_even \<bar>x\<bar>) - \<bar>x\<bar>\<bar> \<le> 1 / 2\<close>
    by (rule round_half_even_near)
  show \<open>format_fixed 0 (of_int k) = (if k < 0 then ''-'' else '''') @ str_nat (nat \<bar>k\<bar>)\<close>
    by (rule format_fixed_0_of_int)
  show \<open>format_fixed 1 x = (if x < 0 then ''-'' else '''')
        @ str_nat (nat (round_half_even (\<bar>x\<bar> * 10)) div 10) @ ''.''
        @ [digit_char (nat (round_half_even (\<bar>x\<bar> * 10)) mod 10)]\<close>
    by (rule format_fixed_1)
  show \<open>\<bar>of_int (round_half_even (\<bar>x\<bar> * 10)) / 10 - \<bar>x\<bar>\<bar> \<le> 1 / 20\<close>
    by (rule round_one_decimal_near)
  show \<open>read_nat (str_nat n) = n\<close> by (rule read_nat_str_nat)
qed (rule fmt_compact_examples fmt_compact_examples_rounded)+

theorem fmt_compact_branches_witness:
  \<open>(1000000::rat) \<le> \<bar>2300000\<bar> \<and> round_double (2300000 / 1000000) \<notin> \<int> \<and>
     fmt_compact 2300000 = ''$'' @ format_fixed 1 (round_double (2300000 / 1000000)) @ ''M'' \<and>
     (1000::rat) \<le> \<bar>45000\<bar> \<and> \<bar>45000\<bar> < (1000000::rat) \<and>
     fmt_compact 45000 = ''$'' @ format_fixed 0 (round_double (45000 / 1000)) @ ''K'' \<and>
     \<bar>7\<bar> < (1000::rat) \<and> fmt_compact 7 = ''$'' @ format_fixed 0 7\<close>
proof -
  have \<open>frac (round_double (2300000 / 1000000)) \<noteq> 0\<close> by code_simp
  then have nonint: \<open>round_double (2300000 / 1000000) \<notin> \<int>\<close>
    using frac_eq_0_iff [of \<open>round_double (2300000 / 1000000)\<close>] by blast
  have m: \<open>fmt_compact 2300000 = ''$'' @ format_fixed 1 (round_double (2300000 / 1000000)) @ ''M''\<close>
    using fmt_compact_branches [of 2300000] nonint by simp
  have k: \<open>fmt_compact 45000 = ''$'' @ format_fixed 0 (round_double (45000 / 1000)) @ ''K''\<close>
    using fmt_compact_branches [of 45000] by simp
  have u: \<open>fmt_compact 7 = ''$'' @ format_fixed 0 7\<close>
    using fmt_compact_branches [of 7] by simp
  have n1: \<open>(1000000::rat) \<le> \<bar>2300000\<bar>\<close> by simp
  have n2: \<open>(1000::rat) \<le> \<bar>45000\<bar>\<close> by simp
  have n3: \<open>\<bar>45000\<bar> < (1000000::rat)\<close> by simp
  have n4: \<open>\<bar>7\<bar> < (1000::rat)\<close> by simp
  from n1 nonint m n2 n3 k n4 u show ?thesis by (intro conjI)
qed

text \<open>
  Claim C5, as stated: the output for a negative value carries no minus sign. It fails:
  \<^verbatim>\<open>fmt_compact(-5)\<close> is \<^verbatim>\<open>$-5\<close>, which differs from the output for 5.
\<close>

theorem fmt_compact_negative_sign_counterexample:
  \<open>fmt_compact (- 5) = ''$-5'' \<and> CHR ''-'' \<in> set (fmt_compact (- 5)) \<and>
     fmt_compact (- 5) \<noteq> fmt_compact 5\<close>
  by code_simp

text \<open>
  Claim C5, amended. For every negative value the branch is chosen by the absolute value
  and the output is the output for the absolute value with a minus sign put directly
  after the dollar sign: the string starts with the dollar sign, its second character is
  the minus sign, and the output for the absolute value holds no minus sign at all.
\<close>

theorem fmt_compact_negative:
  \<open>v < 0 \<Longrightarrow>
     fmt_compact v = ''$-'' @ tl (fmt_compact (- v)) \<and>
     hd (fmt_compact (- v)) = CHR ''$'' \<and>
     hd (fmt_compact v) = CHR ''$'' \<and>
     fmt_compact v ! 1 = CHR ''-'' \<and>
     CHR ''-'' \<notin> set (fmt_compact (- v))\<close>
proof -
  assume neg: \<open>v < 0\<close>
  have eq: \<open>fmt_compact v = ''$-'' @ tl (fmt_compact (- v))\<close>
    using neg by (rule fmt_compact_neg)
  have hd_pos: \<open>hd (fmt_compact w) = CHR ''$''\<close> for w
    by (simp add: fmt_compact_def Let_def)
  have \<open>CHR ''-'' \<notin> set (fmt_compact (- v))\<close>
    using neg by (intro fmt_compact_nonneg_no_minus) simp
  then show ?thesis using eq hd_pos by simp
qed

theorem fmt_compact_negative_witness:
  \<open>(- 2300000 :: rat) < 0 \<and> fmt_compact (- 2300000) = ''$-2.3M'' \<and>
     fmt_compact 2300000 = ''$2.3M''\<close>
proof -
  have pos: \<open>fmt_compact 2300000 = ''$2.3M''\<close> by code_simp
  show ?thesis
    using fmt_compact_negative [of \<open>- 2300000\<close>] by (simp add: pos)
qed

section \<open>Properties of the axis ticks\<close>













section \<open>Properties of the KPI calculations\<close>

lemma finite_defined_positions: \<open>finite (defined_positions s)\<close>
  by (simp add: defined_positions_def)

lemma defined_positions_snoc:
  \<open>defined_positions (s @ [x])
     = (if x \<noteq> None then insert (length s) (defined_positions s) else defined_positions s)\<close>
  by (auto simp: defined_positions_def nth_append less_Suc_eq)

lemma dropna_snoc: \<open>dropna (s @ [x]) = dropna s @ (if x \<noteq> None then [x] else [])\<close>
  by (simp add: dropna_def)

lemma sum_list_dropna:
  \<open>sum_list (map the (dropna s)) = (\<Sum>i\<in>defined_positions s. the (s ! i))\<close>
proof (induction s rule: rev_induct)
  case Nil
  show ?case by (simp add: dropna_def defined_positions_def)
next
  case (snoc x s)
  have same: \<open>(\<Sum>i\<in>defined_positions s. the ((s @ [x]) ! i))
              = (\<Sum>i\<in>defined_positions s. the (s ! i))\<close>
    by (rule sum.cong) (simp_all add: defined_positions_def nth_append)
  show ?case
  proof (cases \<open>x = None\<close>)
    case True
    then show ?thesis
      using snoc same by (simp only: defined_positions_snoc dropna_snoc) simp
  next
    case False
    have notin: \<open>length s \<notin> defined_positions s\<close> by (simp add: defined_positions_def)
    have \<open>(\<Sum>i\<in>insert (length s) (defined_positions s). the ((s @ [x]) ! i))
          = the ((s @ [x]) ! length s) + (\<Sum>i\<in>defined_positions s. the ((s @ [x]) ! i))\<close>
      using finite_defined_positions notin by (rule sum.insert)
    then show ?thesis
      using False snoc same by (simp only: defined_positions_snoc dropna_snoc) (simp add: add.commute)
  qed
qed

lemma length_dropna: \<open>length (dropna s) = card (defined_positions s)\<close>
  unfolding dropna_def defined_positions_def by (rule length_filter_conv_card)

lemma dropna_empty_iff: \<open>(dropna s = []) = (\<forall>x\<in>set s. x = None)\<close>
  by (simp add: dropna_def filter_empty_conv)

text \<open>
  Claim C6. The Average-Monthly-Growth KPI is the arithmetic mean of the deltas of the
  series that are not undefined: their sum over their number. When every delta is
  undefined, or the series is empty, it is 0; it is never undefined.
\<close>

theorem avg_mom_mean:
  \<open>avg_mom s =
     Some (if \<forall>x\<in>set s. x = None then 0
           else (\<Sum>i\<in>defined_positions s. the (s ! i)) / of_nat (card (defined_positions s)))\<close>
proof (cases \<open>dropna s = []\<close>)
  case True
  then show ?thesis by (simp add: avg_mom_def dropna_empty_iff)
next
  case False
  then have some: \<open>\<not> (\<forall>x\<in>set s. x = None)\<close> by (simp add: dropna_empty_iff)
  have \<open>map the (dropna s) \<noteq> []\<close> using False by simp
  then have mean: \<open>series_mean s
      = Some ((\<Sum>i\<in>defined_positions s. the (s ! i)) / of_nat (card (defined_positions s)))\<close>
    by (simp add: series_mean_def Let_def sum_list_dropna length_dropna)
  have \<open>avg_mom s = series_mean s\<close> using False by (simp add: avg_mom_def)
  then show ?thesis unfolding if_not_P [OF some] using mean by simp
qed

theorem avg_mom_mean_witness:
  \<open>avg_mom [None, Some 10, Some (- 75), None] = Some (- 65 / 2) \<and>
     avg_mom [None, None] = Some 0 \<and> avg_mom [] = Some 0\<close>
proof -
  have idx: \<open>defined_positions [None, Some 10, Some (- 75), None :: rat option] = {1, 2}\<close>
    by (auto simp: defined_positions_def nth_Cons' less_Suc_eq split: if_splits)
  show ?thesis
    using avg_mom_mean [of \<open>[None, Some 10, Some (- 75), None]\<close>]
          avg_mom_mean [of \<open>[None, None]\<close>] avg_mom_mean [of \<open>[]\<close>]
    by (simp add: idx)
qed

lemma kpi_current:
  \<open>current_df (kpi_calculations fs d y m)
     = calculate_delivery_speed fs (filter_by_period fs d y m)\<close>
  by (simp add: kpi_calculations_def Let_def)

lemma kpi_comparison:
  \<open>comparison_df (kpi_calculations fs d y m)
     = calculate_delivery_speed fs (filter_by_period fs d (y - 1) m)\<close>
  by (simp add: kpi_calculations_def Let_def)

lemma kpi_currents:
  \<open>revenue (kpi_calculations fs d y m)
     = calculate_revenue fs (current_df (kpi_calculations fs d y m))\<close>
  \<open>aov (kpi_calculations fs d y m)
     = calculate_avg_order_value fs (current_df (kpi_calculations fs d y m))\<close>
  \<open>orders (kpi_calculations fs d y m)
     = calculate_order_count fs (current_df (kpi_calculations fs d y m))\<close>
  by (simp_all add: kpi_calculations_def Let_def)

lemma kpi_previous:
  \<open>prev_rev (kpi_calculations fs d y m)
     = (if comparison_df (kpi_calculations fs d y m) = [] then PNone
        else calculate_revenue fs (comparison_df (kpi_calculations fs d y m)))\<close>
  \<open>prev_aov (kpi_calculations fs d y m)
     = (if comparison_df (kpi_calculations fs d y m) = [] then PNone
        else calculate_avg_order_value fs (comparison_df (kpi_calculations fs d y m)))\<close>
  \<open>prev_orders (kpi_calculations fs d y m)
     = (if comparison_df (kpi_calculations fs d y m) = [] then PNone
        else calculate_order_count fs (comparison_df (kpi_calculations fs d y m)))\<close>
  by (simp_all add: kpi_calculations_def Let_def)

text \<open>
  Claim C7. For every analysis year \<open>y\<close> and month selection \<open>m\<close>, the comparison subset is
  the period filter (followed by the delivery-speed step, as for the current subset)
  applied to the delivered records with year \<open>y - 1\<close> and the same \<open>m\<close>: it is the current
  subset of the year before. When it is not empty, the previous revenue, average order
  value and order count are what the calculators of the current values give on it; when
  it is empty, each of them is \<^verbatim>\<open>None\<close>.
\<close>

theorem kpi_comparison_period:
  \<open>comparison_df (kpi_calculations fs d y m)
       = calculate_delivery_speed fs (filter_by_period fs d (y - 1) m) \<and>
     comparison_df (kpi_calculations fs d y m) = current_df (kpi_calculations fs d (y - 1) m) \<and>
     has_comparison (kpi_calculations fs d y m)
       = (comparison_df (kpi_calculations fs d y m) \<noteq> []) \<and>
     revenue (kpi_calculations fs d y m)
       = calculate_revenue fs (current_df (kpi_calculations fs d y m)) \<and>
     aov (kpi_calculations fs d y m)
       = calculate_avg_order_value fs (current_df (kpi_calculations fs d y m)) \<and>
     orders (kpi_calculations fs d y m)
       = calculate_order_count fs (current_df (kpi_calculations fs d y m)) \<and>
     (comparison_df (kpi_calculations fs d y m) \<noteq> [] \<longrightarrow>
        prev_rev (kpi_calculations fs d y m)
          = calculate_revenue fs (comparison_df (kpi_calculations fs d y m)) \<and>
        prev_aov (kpi_calculations fs d y m)
          = calculate_avg_order_value fs (comparison_df (kpi_calculations fs d y m)) \<and>
        prev_orders (kpi_calculations fs d y m)
          = calculate_order_count fs (comparison_df (kpi_calculations fs d y m)) \<and>
        prev_rev (kpi_calculations fs d y m) = revenue (kpi_calculations fs d (y - 1) m) \<and>
        prev_aov (kpi_calculations fs d y m) = aov (kpi_calculations fs d (y - 1) m) \<and>
        prev_orders (kpi_calculations fs d y m) = orders (kpi_calculations fs d (y - 1) m)) \<and>
     (comparison_df (kpi_calculations fs d y m) = [] \<longrightarrow>
        prev_rev (kpi_calculations fs d y m) = PNone \<and>
        prev_aov (kpi_calculations fs d y m) = PNone \<and>
        prev_orders (kpi_calculations fs d y m) = PNone)\<close>
proof -
  have same: \<open>comparison_df (kpi_calculations fs d y m)
                = current_df (kpi_calculations fs d (y - 1) m)\<close>
    by (simp only: kpi_current kpi_comparison)
  have has: \<open>has_comparison (kpi_calculations fs d y m)
       = (comparison_df (kpi_calculations fs d y m) \<noteq> [])\<close>
    by (simp add: kpi_calculations_def Let_def)
  show ?thesis
    using same has kpi_comparison [of fs d y m] kpi_currents [of fs d y m]
          kpi_currents [of fs d \<open>y - 1\<close> m] kpi_previous [of fs d y m]
    by simp
qed

lemma example_comparison_2023:
  \<open>comparison_df (kpi_calculations spec_metrics example_lines 2023 (Some 1))
     = [\<lparr>order_status = ''delivered'', year = Some 2022, order_id = 105, price = 50, month = Some 1\<rparr>]\<close>
  by (simp add: kpi_calculations_def Let_def spec_metrics_def spec_filter_by_period_def example_lines_def)

lemma example_comparison_2022:
  \<open>comparison_df (kpi_calculations spec_metrics example_lines 2022 (Some 1)) = []\<close>
  by (simp add: kpi_calculations_def Let_def spec_metrics_def spec_filter_by_period_def example_lines_def)

theorem kpi_comparison_period_witness:
  \<open>comparison_df (kpi_calculations spec_metrics example_lines 2023 (Some 1)) \<noteq> [] \<and>
     revenue (kpi_calculations spec_metrics example_lines 2023 (Some 1)) = PNum 600 \<and>
     prev_rev (kpi_calculations spec_metrics example_lines 2023 (Some 1)) = PNum 50 \<and>
     prev_orders (kpi_calculations spec_metrics example_lines 2023 (Some 1)) = PNum 1 \<and>
     comparison_df (kpi_calculations spec_metrics example_lines 2022 (Some 1)) = [] \<and>
     prev_rev (kpi_calculations spec_metrics example_lines 2022 (Some 1)) = PNone \<and>
     prev_aov (kpi_calculations spec_metrics example_lines 2022 (Some 1)) = PNone \<and>
     prev_orders (kpi_calculations spec_metrics example_lines 2022 (Some 1)) = PNone\<close>
proof -
  have cur: \<open>current_df (kpi_calculations spec_metrics example_lines 2023 (Some 1))
     = [\<lparr>order_status = ''delivered'', year = Some 2023, order_id = 101, price = 100, month = Some 1\<rparr>,
        \<lparr>order_status = ''delivered'', year = Some 2023, order_id = 102, price = 200, month = Some 1\<rparr>,
        \<lparr>order_status = ''delivered'', year = Some 2023, order_id = 103, price = 300, month = Some 1\<rparr>]\<close>
    by (simp add: kpi_calculations_def Let_def spec_metrics_def spec_filter_by_period_def example_lines_def)
  have rev_cur: \<open>calculate_revenue spec_metrics
       [\<lparr>order_status = ''delivered'', year = Some 2023, order_id = 101, price = 100, month = Some 1\<rparr>,
        \<lparr>order_status = ''delivered'', year = Some 2023, order_id = 102, price = 200, month = Some 1\<rparr>,
        \<lparr>order_status = ''delivered'', year = Some 2023, order_id = 103, price = 300, month = Some 1\<rparr>]
       = PNum 600\<close>
    by (simp add: spec_metrics_def)
  have rev_cmp: \<open>calculate_revenue spec_metrics
       [\<lparr>order_status = ''delivered'', year = Some 2022, order_id = 105, price = 50, month = Some 1\<rparr>]
       = PNum 50\<close>
    by (simp add: spec_metrics_def)
  have cnt_cmp: \<open>calculate_order_count spec_metrics
       [\<lparr>order_status = ''delivered'', year = Some 2022, order_id = 105, price = 50, month = Some 1\<rparr>]
       = PNum 1\<close>
    by (simp add: spec_metrics_def spec_order_count_def)
  have ne: \<open>comparison_df (kpi_calculations spec_metrics example_lines 2023 (Some 1)) \<noteq> []\<close>
    by (simp add: example_comparison_2023)
  have p23: \<open>prev_rev (kpi_calculations spec_metrics example_lines 2023 (Some 1))
       = calculate_revenue spec_metrics
           (comparison_df (kpi_calculations spec_metrics example_lines 2023 (Some 1))) \<and>
     prev_orders (kpi_calculations spec_metrics example_lines 2023 (Some 1))
       = calculate_order_count spec_metrics
           (comparison_df (kpi_calculations spec_metrics example_lines 2023 (Some 1))) \<and>
     revenue (kpi_calculations spec_metrics example_lines 2023 (Some 1))
       = calculate_revenue spec_metrics
           (current_df (kpi_calculations spec_metrics example_lines 2023 (Some 1)))\<close>
    using kpi_comparison_period [of spec_metrics example_lines 2023 \<open>Some 1\<close>] ne by blast
  have p22: \<open>prev_rev (kpi_calculations spec_metrics example_lines 2022 (Some 1)) = PNone \<and>
     prev_aov (kpi_calculations spec_metrics example_lines 2022 (Some 1)) = PNone \<and>
     prev_orders (kpi_calculations spec_metrics example_lines 2022 (Some 1)) = PNone\<close>
    using kpi_comparison_period [of spec_metrics example_lines 2022 \<open>Some 1\<close>]
          example_comparison_2022 by blast
  show ?thesis
    using p23 p22 ne
    by (simp add: example_comparison_2023 example_comparison_2022 cur rev_cur rev_cmp cnt_cmp)
qed

section \<open>Properties of the delivery satisfaction chart\<close>

lemma map_of_keyed:
  \<open>map_of (map (\<lambda>k. (k, f k)) ks) b = (if b \<in> set ks then Some (f b) else None)\<close>
  by (induction ks) auto

lemma series_mean_Nil: \<open>series_mean [] = None\<close>
  by (simp add: series_mean_def dropna_def)

lemma filter_absent: \<open>b \<notin> set (map delivery_bucket df) \<Longrightarrow> filter (\<lambda>r. delivery_bucket r = b) df = []\<close>
  by (auto simp: filter_empty_conv)

lemma reindex_groupby_entry:
  \<open>(case map_of (groupby_mean df) b of None \<Rightarrow> None | Some v \<Rightarrow> v)
     = series_mean (map review_score (filter (\<lambda>r. delivery_bucket r = b) df))\<close>
proof (cases \<open>b \<in> set (map delivery_bucket df)\<close>)
  case True
  then show ?thesis
    unfolding groupby_mean_def map_of_keyed by simp
next
  case False
  then have \<open>filter (\<lambda>r. delivery_bucket r = b) df = []\<close> by (rule filter_absent)
  with False show ?thesis
    unfolding groupby_mean_def map_of_keyed by (simp add: series_mean_Nil)
qed

lemma filter_known_bucket:
  \<open>b \<noteq> ''Unknown'' \<Longrightarrow>
     filter (\<lambda>r. delivery_bucket r = b) (filter (\<lambda>r. delivery_bucket r \<noteq> ''Unknown'') df)
       = filter (\<lambda>r. delivery_bucket r = b) df\<close>
  by (induction df) auto

lemma bucket_means_entries:
  \<open>bucket_means df =
     map (\<lambda>b. (b, series_mean (map review_score (filter (\<lambda>r. delivery_bucket r = b) df))))
         [''1-3 days'', ''4-7 days'', ''8+ days'']\<close>
  unfolding bucket_means_def reindex_def buckets_def reindex_groupby_entry
  by (simp add: filter_known_bucket del: filter_filter)

text \<open>
  Claim C8. The chart's three means are, for each of \<^verbatim>\<open>1-3 days\<close>, \<^verbatim>\<open>4-7 days\<close> and
  \<^verbatim>\<open>8+ days\<close>, the mean review score of the records of that bucket (missing when there
  is none), and nothing else: records of the bucket \<^verbatim>\<open>Unknown\<close> are in none of them, so
  removing or adding such records changes no mean.
\<close>

theorem bucket_means_exclude_unknown:
  \<open>bucket_means df =
       [(''1-3 days'', series_mean (map review_score (filter (\<lambda>r. delivery_bucket r = ''1-3 days'') df))),
        (''4-7 days'', series_mean (map review_score (filter (\<lambda>r. delivery_bucket r = ''4-7 days'') df))),
        (''8+ days'', series_mean (map review_score (filter (\<lambda>r. delivery_bucket r = ''8+ days'') df)))] \<and>
     bucket_means (filter (\<lambda>r. delivery_bucket r \<noteq> ''Unknown'') df) = bucket_means df \<and>
     (filter (\<lambda>r. delivery_bucket r \<noteq> ''Unknown'') df
        = filter (\<lambda>r. delivery_bucket r \<noteq> ''Unknown'') df' \<longrightarrow>
      bucket_means df = bucket_means df') \<and>
     ((\<forall>r\<in>set unknowns. delivery_bucket r = ''Unknown'') \<longrightarrow>
      bucket_means (df @ unknowns) = bucket_means df)\<close>
proof (intro conjI impI)
  show \<open>bucket_means df =
       [(''1-3 days'', series_mean (map review_score (filter (\<lambda>r. delivery_bucket r = ''1-3 days'') df))),
        (''4-7 days'', series_mean (map review_score (filter (\<lambda>r. delivery_bucket r = ''4-7 days'') df))),
        (''8+ days'', series_mean (map review_score (filter (\<lambda>r. delivery_bucket r = ''8+ days'') df)))]\<close>
    by (simp add: bucket_means_entries)
  show \<open>bucket_means (filter (\<lambda>r. delivery_bucket r \<noteq> ''Unknown'') df) = bucket_means df\<close>
    by (simp add: bucket_means_def)
  show \<open>bucket_means df = bucket_means df'\<close>
    if \<open>filter (\<lambda>r. delivery_bucket r \<noteq> ''Unknown'') df
        = filter (\<lambda>r. delivery_bucket r \<noteq> ''Unknown'') df'\<close>
    using that by (simp add: bucket_means_def)
  show \<open>bucket_means (df @ unknowns) = bucket_means df\<close>
    if \<open>\<forall>r\<in>set unknowns. delivery_bucket r = ''Unknown''\<close>
  proof -
    have \<open>filter (\<lambda>r. delivery_bucket r \<noteq> ''Unknown'') unknowns = []\<close>
      using that by (simp add: filter_empty_conv)
    then show ?thesis by (simp add: bucket_means_def)
  qed
qed

theorem bucket_means_exclude_unknown_witness:
  \<open>bucket_means
       [\<lparr>delivery_bucket = ''1-3 days'', review_score = Some 5\<rparr>,
        \<lparr>delivery_bucket = ''Unknown'', review_score = Some 2\<rparr>,
        \<lparr>delivery_bucket = ''1-3 days'', review_score = Some 4\<rparr>,
        \<lparr>delivery_bucket = ''8+ days'', review_score = None\<rparr>]
     = [(''1-3 days'', Some (9 / 2)), (''4-7 days'', None), (''8+ days'', None)] \<and>
     bucket_means
       ([\<lparr>delivery_bucket = ''1-3 days'', review_score = Some 5\<rparr>]
        @ [\<lparr>delivery_bucket = ''Unknown'', review_score = Some 2\<rparr>])
     = bucket_means [\<lparr>delivery_bucket = ''1-3 days'', review_score = Some 5\<rparr>]\<close>
proof -
  have a: \<open>bucket_means
       [\<lparr>delivery_bucket = ''1-3 days'', review_score = Some 5\<rparr>,
        \<lparr>delivery_bucket = ''Unknown'', review_score = Some 2\<rparr>,
        \<lparr>delivery_bucket = ''1-3 days'', review_score = Some 4\<rparr>,
        \<lparr>delivery_bucket = ''8+ days'', review_score = None\<rparr>]
     = [(''1-3 days'', Some (9 / 2)), (''4-7 days'', None), (''8+ days'', None)]\<close>
    using bucket_means_exclude_unknown [of
       \<open>[\<lparr>delivery_bucket = ''1-3 days'', review_score = Some 5\<rparr>,
        \<lparr>delivery_bucket = ''Unknown'', review_score = Some 2\<rparr>,
        \<lparr>delivery_bucket = ''1-3 days'', review_score = Some 4\<rparr>,
        \<lparr>delivery_bucket = ''8+ days'', review_score = None\<rparr>]\<close>]
    by (simp add: series_mean_def dropna_def)
  have b: \<open>bucket_means
       ([\<lparr>delivery_bucket = ''1-3 days'', review_score = Some 5\<rparr>]
        @ [\<lparr>delivery_bucket = ''Unknown'', review_score = Some 2\<rparr>])
     = bucket_means [\<lparr>delivery_bucket = ''1-3 days'', review_score = Some 5\<rparr>]\<close>
    using bucket_means_exclude_unknown [of
       \<open>[\<lparr>delivery_bucket = ''1-3 days'', review_score = Some 5\<rparr>]\<close> _
       \<open>[\<lparr>delivery_bucket = ''Unknown'', review_score = Some 2\<rparr>]\<close>]
    by simp
  show ?thesis using a b by (intro conjI)
qed

section \<open>Properties of the year selector\<close>

lemma list_index_nth: \<open>v \<in> set xs \<Longrightarrow> xs ! list_index xs v = v\<close>
  by (induction xs) auto

lemma list_index_less: \<open>v \<in> set xs \<Longrightarrow> list_index xs v < length xs\<close>
  by (induction xs) auto

lemma set_available_years:
  \<open>set (available_years df)
     = {y. \<exists>r\<in>set df. order_status r = ''delivered'' \<and> year r = Some y}\<close>
proof -
  have \<open>set (available_years df)
         = the ` {x \<in> year ` {r \<in> set df. order_status r = ''delivered''}. x \<noteq> None}\<close>
    by (simp add: available_years_def sorted_reverse_def dropna_def delivered_def)
  also have \<open>\<dots> = {y. \<exists>r\<in>set df. order_status r = ''delivered'' \<and> year r = Some y}\<close>
  proof (intro set_eqI iffI)
    fix y
    assume \<open>y \<in> the ` {x \<in> year ` {r \<in> set df. order_status r = ''delivered''}. x \<noteq> None}\<close>
    then obtain r where \<open>r \<in> set df\<close> \<open>order_status r = ''delivered''\<close>
        \<open>year r \<noteq> None\<close> \<open>y = the (year r)\<close>
      by auto
    then show \<open>y \<in> {y. \<exists>r\<in>set df. order_status r = ''delivered'' \<and> year r = Some y}\<close>
      by auto
  next
    fix y
    assume \<open>y \<in> {y. \<exists>r\<in>set df. order_status r = ''delivered'' \<and> year r = Some y}\<close>
    then obtain r where r: \<open>r \<in> set df\<close> \<open>order_status r = ''delivered''\<close> \<open>year r = Some y\<close>
      by auto
    then have \<open>Some y \<in> {x \<in> year ` {r \<in> set df. order_status r = ''delivered''}. x \<noteq> None}\<close>
      by force
    then have \<open>the (Some y) \<in> the ` {x \<in> year ` {r \<in> set df. order_status r = ''delivered''}. x \<noteq> None}\<close>
      by (rule imageI)
    then show \<open>y \<in> the ` {x \<in> year ` {r \<in> set df. order_status r = ''delivered''}. x \<noteq> None}\<close>
      by (simp only: option.sel)
  qed
  finally show ?thesis .
qed

lemma distinct_available_years: \<open>distinct (available_years df)\<close>
  by (simp add: available_years_def sorted_reverse_def)

lemma sorted_available_years: \<open>sorted (rev (available_years df))\<close>
  by (simp add: available_years_def sorted_reverse_def)

lemma descending_available_years: \<open>sorted_wrt (>) (available_years df)\<close>
proof -
  have \<open>sorted_wrt (<) (rev (available_years df))\<close>
    using sorted_available_years [of df] distinct_available_years [of df]
    by (simp add: strict_sorted_iff)
  then show ?thesis by (simp add: sorted_wrt_rev)
qed

lemma hd_descending_Max:
  fixes ys :: \<open>int list\<close>
  assumes \<open>sorted (rev ys)\<close> and \<open>ys \<noteq> []\<close>
  shows \<open>ys ! 0 = Max (set ys)\<close>
proof -
  obtain y rest where ys: \<open>ys = y # rest\<close> using assms(2) by (cases ys) auto
  have \<open>\<forall>z\<in>set rest. z \<le> y\<close>
    using assms(1) unfolding ys by (simp add: sorted_append)
  then have \<open>Max (set (y # rest)) = y\<close>
    by (intro Max_eqI) auto
  then show ?thesis unfolding ys by simp
qed

text \<open>
  Claim C9. The options of the year selector are exactly the years of the delivered
  records, each once, the most recent first. Its default selection is 2023 when 2023 is
  among them, and otherwise the most recent of them (there is no selection when there is
  no delivered record with a year).
\<close>

theorem year_selector:
  \<open>set (available_years df)
       = {y. \<exists>r\<in>set df. order_status r = ''delivered'' \<and> year r = Some y} \<and>
     distinct (available_years df) \<and>
     sorted_wrt (>) (available_years df) \<and>
     analysis_year df
       = (if 2023 \<in> set (available_years df) then Some 2023
          else if available_years df = [] then None
          else Some (Max (set (available_years df))))\<close>
proof (intro conjI)
  show \<open>set (available_years df)
       = {y. \<exists>r\<in>set df. order_status r = ''delivered'' \<and> year r = Some y}\<close>
    by (rule set_available_years)
  show \<open>distinct (available_years df)\<close> by (rule distinct_available_years)
  show \<open>sorted_wrt (>) (available_years df)\<close> by (rule descending_available_years)
  show \<open>analysis_year df
       = (if 2023 \<in> set (available_years df) then Some 2023
          else if available_years df = [] then None
          else Some (Max (set (available_years df))))\<close>
  proof (cases \<open>2023 \<in> set (available_years df)\<close>)
    case True
    then have \<open>available_years df \<noteq> []\<close> by auto
    then show ?thesis
      using True list_index_nth [OF True]
      by (simp add: analysis_year_def selectbox_def default_yr_idx_def)
  next
    case False
    show ?thesis
    proof (cases \<open>available_years df = []\<close>)
      case True
      then show ?thesis by (simp add: analysis_year_def selectbox_def)
    next
      case ne: False
      have \<open>available_years df ! 0 = Max (set (available_years df))\<close>
        using sorted_available_years ne by (rule hd_descending_Max)
      then show ?thesis
        using False ne by (simp add: analysis_year_def selectbox_def default_yr_idx_def)
    qed
  qed
qed

lemma example_years: \<open>available_years example_sales = [2024, 2022]\<close>
  by code_simp

lemma example_years_2023:
  \<open>available_years (\<lparr>order_status = ''delivered'', year = Some 2023\<rparr> # example_sales)
     = [2024, 2023, 2022]\<close>
  by code_simp

theorem year_selector_witness:
  \<open>available_years example_sales = [2024, 2022] \<and>
     analysis_year example_sales = Some 2024 \<and>
     analysis_year (\<lparr>order_status = ''delivered'', year = Some 2023\<rparr> # example_sales) = Some 2023 \<and>
     analysis_year [] = None\<close>
proof -
  have nil: \<open>available_years [] = []\<close> by code_simp
  show ?thesis
    using year_selector [of example_sales]
          year_selector [of \<open>\<lparr>order_status = ''delivered'', year = Some 2023\<rparr> # example_sales\<close>]
          year_selector [of \<open>[]\<close>]
    by (simp add: example_years example_years_2023 nil)
qed

end
